theory Spec2Isabelle
  imports Complex_Main "HOL-Library.Sublist"
begin

section \<open>The game engine (src/src/tetris.ts)\<close>

subsection \<open>Data model\<close>

text \<open>
  A cell is \<open>0\<close> (empty) or a colour \<open>1..7\<close>; the arena and a piece are arrays of rows
  (\<open>(0 | 1 | ... | 7)[][]\<close>). The player object \<open>{pos: {x, y}, matrix, score}\<close> is a record,
  with \<open>pos.x\<close> and \<open>pos.y\<close> as the fields \<open>pos_x\<close> and \<open>pos_y\<close>. Positions and
  offsets are JavaScript numbers that only ever hold integers here (they come from
  \<open>| 0\<close> and from adding integer offsets), so they are \<open>int\<close>.
\<close>

type_synonym matrix = "nat list list"

record player =
  pos_x :: int
  pos_y :: int
  matrix :: matrix
  score :: nat

text \<open>\<open>var mode: 0 | 1\<close>: 0 is Normal mode, 1 is Fill mode.\<close>

datatype mode = Normal | Fill

text \<open>The module's global variables that the modelled functions read or write.\<close>

record game =
  arena :: matrix
  player :: player
  gamePaused :: bool
  mode :: mode
  speedModifier :: real

text \<open>
  What the source does where the model's types end: a \<open>TypeError\<close> is thrown by reading a
  property of \<open>undefined\<close>; \<open>UndefinedCell\<close> stands for a run in which an out-of-range read
  hands \<open>undefined\<close> to a cell, which the cell type \<open>0 | 1 | ... | 7\<close> does not hold.
\<close>

datatype fault = TypeError | UndefinedCell

subsection \<open>collide\<close>

text \<open>
  \<open>arena[r] && arena[r][c]\<close>: reading an array out of range (also at a negative index)
  gives \<open>undefined\<close>, here \<open>None\<close>; a row that exists is an array and so truthy.
\<close>

definition arena_at :: "matrix \<Rightarrow> int \<Rightarrow> int \<Rightarrow> nat option" where
  "arena_at a r c =
     (if 0 \<le> r \<and> r < int (length a)
      then (if 0 \<le> c \<and> c < int (length (a ! nat r)) then Some (a ! nat r ! nat c) else None)
      else None)"

text \<open>
  The inner loop over \<open>x\<close> walks the cells of one piece row, \<open>c\<close> being \<open>x + player.pos.x\<close>;
  the outer loop over \<open>y\<close> walks the rows, \<open>r\<close> being \<open>y + player.pos.y\<close>. The first cell with
  \<open>matrix[y][x] !== 0\<close> and \<open>(arena[r] && arena[r][c]) !== 0\<close> returns true.
\<close>

fun collide_row :: "matrix \<Rightarrow> int \<Rightarrow> int \<Rightarrow> nat list \<Rightarrow> bool" where
  "collide_row a r c [] = False"
| "collide_row a r c (v # vs) =
     (if v \<noteq> 0 \<and> arena_at a r c \<noteq> Some 0 then True else collide_row a r (c + 1) vs)"

fun collide_rows :: "matrix \<Rightarrow> int \<Rightarrow> int \<Rightarrow> matrix \<Rightarrow> bool" where
  "collide_rows a r c [] = False"
| "collide_rows a r c (row # rows) =
     (if collide_row a r c row then True else collide_rows a (r + 1) c rows)"

definition collide :: "matrix \<Rightarrow> player \<Rightarrow> bool" where
  "collide a p = collide_rows a (pos_y p) (pos_x p) (matrix p)"

subsection \<open>createMatrix and createPiece\<close>

text \<open>\<open>createMatrix(w, h)\<close>: \<open>h\<close> rows, each a fresh array of \<open>w\<close> zeros.\<close>

definition createMatrix :: "nat \<Rightarrow> nat \<Rightarrow> matrix" where
  "createMatrix w h = replicate h (replicate w 0)"

text \<open>
  The parameter of \<open>createPiece\<close> has the type \<open>"I" | "L" | "J" | "O" | "Z" | "S" | "T"\<close>; the
  final \<open>throw new Error("Unknown piece type")\<close> is the branch for a value outside that type.
  The constructor \<open>Piece_I\<close> is the string \<open>"I"\<close>, and so on.
\<close>

datatype piece_type = Piece_I | Piece_L | Piece_J | Piece_O | Piece_Z | Piece_S | Piece_T

fun createPiece :: "piece_type \<Rightarrow> matrix" where
  "createPiece Piece_I = [[0, 1, 0, 0], [0, 1, 0, 0], [0, 1, 0, 0], [0, 1, 0, 0]]"
| "createPiece Piece_L = [[0, 2, 0], [0, 2, 0], [0, 2, 2]]"
| "createPiece Piece_J = [[0, 3, 0], [0, 3, 0], [3, 3, 0]]"
| "createPiece Piece_O = [[4, 4], [4, 4]]"
| "createPiece Piece_Z = [[5, 5, 0], [0, 5, 5], [0, 0, 0]]"
| "createPiece Piece_S = [[0, 6, 6], [6, 6, 0], [0, 0, 0]]"
| "createPiece Piece_T = [[0, 7, 0], [7, 7, 7], [0, 0, 0]]"

subsection \<open>rotate\<close>

text \<open>
  One pass of the inner loop body: \<open>temp = matrix[y][x]; matrix[y][x] = matrix[x][y];
  matrix[x][y] = temp\<close>, for \<open>x < y < matrix.length\<close>. Both rows exist; when row \<open>y\<close> has
  no column \<open>x\<close> or row \<open>x\<close> has no column \<open>y\<close>, the source reads \<open>undefined\<close> and stores it
  in a cell.
\<close>

definition swap_cells :: "matrix \<Rightarrow> nat \<Rightarrow> nat \<Rightarrow> fault + matrix" where
  "swap_cells m y x =
     (if x < length (m ! y) \<and> y < length (m ! x)
      then (let temp = m ! y ! x;
                m1 = m[y := (m ! y)[x := m ! x ! y]];
                m2 = m1[x := (m1 ! x)[y := temp]]
            in Inr m2)
      else Inl UndefinedCell)"

lemma length_swap_cells: "swap_cells m y x = Inr m' \<Longrightarrow> length m' = length m"
  by (auto simp: swap_cells_def Let_def split: if_splits)

text \<open>\<open>for (var x = 0; x < y; ++x)\<close>\<close>

function transpose_cells :: "matrix \<Rightarrow> nat \<Rightarrow> nat \<Rightarrow> fault + matrix" where
  "transpose_cells m y x =
     (if x < y
      then (case swap_cells m y x of
              Inl e \<Rightarrow> Inl e
            | Inr m' \<Rightarrow> transpose_cells m' y (Suc x))
      else Inr m)"
  by pat_completeness auto
termination
  by (relation "measure (\<lambda>(m, y, x). y - x)") auto

declare transpose_cells.simps [simp del]

lemma length_transpose_cells: "transpose_cells m y x = Inr m' \<Longrightarrow> length m' = length m"
proof (induction m y x rule: transpose_cells.induct)
  case (1 m y x)
  show ?case
  proof (cases "x < y")
    case True
    with "1.prems" obtain m1 where s: "swap_cells m y x = Inr m1"
      and t: "transpose_cells m1 y (Suc x) = Inr m'"
      by (subst (asm) transpose_cells.simps) (auto split: sum.splits)
    from "1.IH" [OF True s t] length_swap_cells [OF s] show ?thesis by simp
  next
    case False
    with "1.prems" show ?thesis by (subst (asm) transpose_cells.simps) simp
  qed
qed

text \<open>\<open>for (var y = 0; y < matrix.length; ++y)\<close>\<close>

function transpose_rows :: "matrix \<Rightarrow> nat \<Rightarrow> fault + matrix" where
  "transpose_rows m y =
     (if y < length m
      then (case transpose_cells m y 0 of
              Inl e \<Rightarrow> Inl e
            | Inr m' \<Rightarrow> transpose_rows m' (Suc y))
      else Inr m)"
  by pat_completeness auto
termination
  by (relation "measure (\<lambda>(m, y). length m - y)")
     (auto dest: length_transpose_cells)

declare transpose_rows.simps [simp del]

text \<open>
  After the transposition, \<open>dir > 0\<close> reverses every row (\<open>row.reverse()\<close>), anything else
  reverses the order of the rows (\<open>matrix.reverse()\<close>).
\<close>

definition rotate :: "matrix \<Rightarrow> int \<Rightarrow> fault + matrix" where
  "rotate m dir =
     (case transpose_rows m 0 of
        Inl e \<Rightarrow> Inl e
      | Inr m' \<Rightarrow> Inr (if dir > 0 then map rev m' else rev m'))"

text \<open>\<open>rotate\<close> called \<open>n\<close> times on the same matrix with the same direction.\<close>

fun rotate_times :: "nat \<Rightarrow> matrix \<Rightarrow> int \<Rightarrow> fault + matrix" where
  "rotate_times 0 m dir = Inr m"
| "rotate_times (Suc n) m dir =
     (case rotate m dir of Inl e \<Rightarrow> Inl e | Inr m' \<Rightarrow> rotate_times n m' dir)"

subsection \<open>arenaSweep\<close>

text \<open>
  The inner loop \<open>for (var x = 0; x < arena[y].length; ++x)\<close> leaves the row alone
  (\<open>continue outer\<close>) at the first cell with \<open>arena[y][x] === 0\<close>.
\<close>

fun has_empty_cell :: "nat list \<Rightarrow> bool" where
  "has_empty_cell [] = False"
| "has_empty_cell (v # vs) = (if v = 0 then True else has_empty_cell vs)"

text \<open>
  The outer loop \<open>for (var y = arena.length - 1; y > 0; --y)\<close>, with the local \<open>rowCount\<close>
  and \<open>player.score\<close> as loop state. A row without an empty cell is taken out
  (\<open>arena.splice(y, 1)[0]\<close>), filled with zeros and put in front (\<open>arena.unshift(row)\<close>);
  the \<open>++y\<close> of the body and the \<open>--y\<close> of the loop leave \<open>y\<close> as it is. The loop need not
  end (a row of width zero has no empty cell and neither has the row that replaces it), so it
  is a partial function, \<open>None\<close> being a run that does not return. The index \<open>y\<close> stays
  below \<open>arena.length\<close>, which no step changes; on the empty arena \<open>arena.length - 1\<close> is
  \<open>-1\<close>, not \<open>0\<close>, and the loop is not entered either way.
\<close>

partial_function (option) arenaSweep_loop ::
    "matrix \<Rightarrow> nat \<Rightarrow> nat \<Rightarrow> nat \<Rightarrow> (matrix \<times> nat) option" where
  [code]: "arenaSweep_loop a y rowCount sc =
     (if y > 0
      then (if has_empty_cell (a ! y)
            then arenaSweep_loop a (y - 1) rowCount sc
            else arenaSweep_loop (replicate (length (a ! y)) 0 # take y a @ drop (Suc y) a) y
                   (rowCount * 2) (sc + rowCount * 10))
      else Some (a, sc))"

definition arenaSweep :: "game \<Rightarrow> game option" where
  "arenaSweep g =
     (if mode g \<noteq> Fill
      then (case arenaSweep_loop (arena g) (length (arena g) - 1) 1 (score (player g)) of
              None \<Rightarrow> None
            | Some (a, sc) \<Rightarrow> Some (g\<lparr>arena := a, player := (player g)\<lparr>score := sc\<rparr>\<rparr>))
      else Some g)"

subsection \<open>playerMove\<close>

definition playerMove :: "int \<Rightarrow> game \<Rightarrow> game" where
  "playerMove offset g =
     (if gamePaused g = False \<or> mode g \<noteq> Normal
      then (let p1 = (player g)\<lparr>pos_x := pos_x (player g) + offset\<rparr>
            in if collide (arena g) p1
               then g\<lparr>player := p1\<lparr>pos_x := pos_x p1 - offset\<rparr>\<rparr>
               else g\<lparr>player := p1\<rparr>)
      else g)"

subsection \<open>playerRotate\<close>

text \<open>
  The \<open>while (collide(arena, player))\<close> loop of \<open>playerRotate\<close>, with the locals \<open>offset\<close>
  and \<open>pos\<close>. \<open>player.matrix\<close> is an array and so truthy; \<open>player.matrix[0].length\<close> throws
  on a matrix without rows.
\<close>

function playerRotate_loop :: "matrix \<Rightarrow> player \<Rightarrow> int \<Rightarrow> int \<Rightarrow> int \<Rightarrow> fault + player" where
  "playerRotate_loop a p offset dir pos =
     (if collide a p
      then (let p1 = p\<lparr>pos_x := pos_x p + offset\<rparr>;
                offset1 = - (offset + (if offset > 0 then 1 else - 1))
            in case matrix p1 of
                 [] \<Rightarrow> Inl TypeError
               | row0 # _ \<Rightarrow>
                   if offset1 > int (length row0)
                   then (case rotate (matrix p1) (- dir) of
                           Inl e \<Rightarrow> Inl e
                         | Inr m \<Rightarrow> Inr (p1\<lparr>matrix := m, pos_x := pos\<rparr>))
                   else playerRotate_loop a p1 offset1 dir pos)
      else Inr p)"
  by pat_completeness auto
termination
  by (relation "measure (\<lambda>(a, p, offset, dir, pos).
        nat (2 * max 0 (int (length (hd (matrix p))) + 1 - \<bar>offset\<bar>))
          + (if offset > 0 then 1 else 0))")
     (auto split: if_splits simp: max_def)

declare playerRotate_loop.simps [simp del]

definition playerRotate :: "int \<Rightarrow> game \<Rightarrow> fault + game" where
  "playerRotate dir g =
     (if gamePaused g = False \<or> mode g \<noteq> Normal
      then (case rotate (matrix (player g)) dir of
              Inl e \<Rightarrow> Inl e
            | Inr m \<Rightarrow>
                (case playerRotate_loop (arena g) ((player g)\<lparr>matrix := m\<rparr>) 1 dir
                        (pos_x (player g)) of
                   Inl e \<Rightarrow> Inl e
                 | Inr p \<Rightarrow> Inr (g\<lparr>player := p\<rparr>)))
      else Inr g)"

subsection \<open>updateScore\<close>

text \<open>
  The score is also written to the page; the rest sets \<open>speedModifier\<close>. The decimal
  literals are taken as the numbers they denote: they are only stored and compared, never
  computed with.
\<close>

definition updateScore :: "game \<Rightarrow> game" where
  "updateScore g =
     (let sc = score (player g) in
      if sc > 30 \<and> sc < 60 then g\<lparr>speedModifier := 0.9\<rparr>
      else if sc > 60 \<and> sc < 90 then g\<lparr>speedModifier := 0.8\<rparr>
      else if sc > 90 \<and> sc < 120 then g\<lparr>speedModifier := 0.7\<rparr>
      else if sc > 120 \<and> sc < 150 then g\<lparr>speedModifier := 0.6\<rparr>
      else if sc > 150 \<and> sc < 180 then g\<lparr>speedModifier := 0.5\<rparr>
      else if sc > 180 \<and> sc < 210 then g\<lparr>speedModifier := 0.4\<rparr>
      else if sc > 210 \<and> sc < 240 then g\<lparr>speedModifier := 0.3\<rparr>
      else if sc > 240 \<and> sc < 270 then g\<lparr>speedModifier := 0.2\<rparr>
      else if sc > 270 \<and> sc < 300 then g\<lparr>speedModifier := 0.1\<rparr>
      else g)"

section \<open>The input normalizer (the gamepad library, src/unnamed/part_000)\<close>

subsection \<open>The deadzone and saturation filter\<close>

text \<open>
  The two fields of a \<open>Gamepad\<close> object that the filter reads; the constructor sets
  \<open>this.deadzone = 0.03\<close> and \<open>this.maximizeThreshold = 0.97\<close>.
\<close>

record gamepad_object =
  deadzone :: real
  maximizeThreshold :: real

definition new_Gamepad :: gamepad_object where
  "new_Gamepad = \<lparr>deadzone = 0.03, maximizeThreshold = 0.97\<rparr>"

text \<open>
  \<open>_applyDeadzoneMaximize(value, deadzone, maximizeThreshold)\<close>; a parameter left out is
  \<open>undefined\<close>, here \<open>None\<close>, and the object's field stands in. The value is taken as the real
  number it denotes: the function only compares it and returns it or a constant. (\<open>NaN\<close>, not
  a real number, fails every comparison and is returned as it is.)
\<close>

definition applyDeadzoneMaximize ::
    "gamepad_object \<Rightarrow> real \<Rightarrow> real option \<Rightarrow> real option \<Rightarrow> real" where
  "applyDeadzoneMaximize this v dz mt =
     (let d = (case dz of Some d' \<Rightarrow> d' | None \<Rightarrow> deadzone this);
          mx = (case mt of Some m' \<Rightarrow> m' | None \<Rightarrow> maximizeThreshold this)
      in if v \<ge> 0
         then (if v < d then 0 else if v > mx then 1 else v)
         else (if v > - d then 0 else if v < - mx then - 1 else v))"

subsection \<open>Controller types and platforms\<close>

text \<open>\<open>Gamepad.Type\<close> and the platforms' \<open>getType()\<close> are string constants.\<close>

definition Type_N64 :: string where "Type_N64 = ''n64''"
definition Type_PLAYSTATION :: string where "Type_PLAYSTATION = ''playstation''"
definition Type_LOGITECH :: string where "Type_LOGITECH = ''logitech''"
definition Type_XBOX :: string where "Type_XBOX = ''xbox''"
definition Type_UNKNOWN :: string where "Type_UNKNOWN = ''unknown''"

definition WebKitPlatform_getType :: string where "WebKitPlatform_getType = ''WebKit''"
definition FirefoxPlatform_getType :: string where "FirefoxPlatform_getType = ''Firefox''"
definition nullPlatform_getType :: string where "nullPlatform_getType = ''null''"

subsection \<open>Strings\<close>

text \<open>
  Identity strings are taken as ASCII: \<open>toLowerCase\<close> maps \<open>A..Z\<close> to \<open>a..z\<close>, and the
  white space of \<open>\s\<close> is space, tab, line feed, vertical tab, form feed and carriage return.
\<close>

definition toLowerCase :: "string \<Rightarrow> string" where
  "toLowerCase s =
     map (\<lambda>c. let n = (of_char c :: nat) in if 65 \<le> n \<and> n \<le> 90 then char_of (n + 32) else c) s"

definition is_space :: "char \<Rightarrow> bool" where
  "is_space c = ((of_char c :: nat) = 32 \<or> (9 \<le> (of_char c :: nat) \<and> (of_char c :: nat) \<le> 13))"

text \<open>\<open>.replace(/\s+/g, " ")\<close>: every run of white space becomes one space.\<close>

function collapse_spaces :: "string \<Rightarrow> string" where
  "collapse_spaces [] = []"
| "collapse_spaces (c # cs) =
     (if is_space c then CHR '' '' # collapse_spaces (dropWhile is_space cs)
      else c # collapse_spaces cs)"
  by pat_completeness auto
termination
  by (relation "measure length") (auto simp: length_dropWhile_le less_Suc_eq_le)

text \<open>\<open>.replace(/^\s+|\s+$/g, "")\<close>: white space at either end goes.\<close>

definition trim_spaces :: "string \<Rightarrow> string" where
  "trim_spaces s = rev (dropWhile is_space (rev (dropWhile is_space s)))"

text \<open>\<open>s.indexOf(t)\<close>: the first index at which \<open>t\<close> starts in \<open>s\<close>, or \<open>-1\<close>.\<close>

fun indexOf_from :: "string \<Rightarrow> string \<Rightarrow> nat \<Rightarrow> int" where
  "indexOf_from [] t i = (if t = [] then int i else - 1)"
| "indexOf_from (c # cs) t i = (if prefix t (c # cs) then int i else indexOf_from cs t (Suc i))"

definition indexOf :: "string \<Rightarrow> string \<Rightarrow> int" where
  "indexOf s t = indexOf_from s t 0"

subsection \<open>_resolveControllerType\<close>

definition resolveControllerType :: "string \<Rightarrow> string" where
  "resolveControllerType gid =
     (let id1 = trim_spaces (collapse_spaces (toLowerCase gid)) in
      if indexOf id1 ''playstation'' \<noteq> - 1 then Type_PLAYSTATION
      else if indexOf id1 ''logitech'' \<noteq> - 1 \<or> indexOf id1 ''wireless gamepad'' \<noteq> - 1
        then Type_LOGITECH
      else if indexOf id1 ''xbox'' \<noteq> - 1 \<or> indexOf id1 ''360'' \<noteq> - 1 then Type_XBOX
      else if (indexOf id1 ''79-6-generic'' \<noteq> - 1 \<and> indexOf id1 ''joystick'' \<noteq> - 1)
           \<or> (indexOf id1 ''vendor: 0079 product: 0006'' \<noteq> - 1
              \<and> indexOf id1 ''generic usb joystick'' \<noteq> - 1)
        then Type_N64
      else Type_UNKNOWN)"

subsection \<open>Mappings\<close>

text \<open>
  A mapping object \<open>{env, buttons: {byButton, byAxis?}, axes: {byAxis}}\<close>. An \<open>env\<close> object
  is the list of its fields with their values. An entry of \<open>buttons.byAxis\<close> is the number
  \<open>-1\<close> or a triple \<open>[axis, zero, one]\<close>.
\<close>

datatype axis_entry = Index int | Ranged int int int

record mapping =
  env :: "(string \<times> string) list"
  buttons_byButton :: "int list"
  buttons_byAxis :: "axis_entry list option"
  axes_byAxis :: "int list"

definition StandardMapping :: mapping where
  "StandardMapping =
     \<lparr>env = [],
      buttons_byButton = [0, 1, 2, 3, 4, 5, 6, 7, 8, 9, 10, 11, 12, 13, 14, 15, 16],
      buttons_byAxis = None,
      axes_byAxis = [0, 1, 2, 3]\<rparr>"

definition Mappings :: "mapping list" where
  "Mappings =
     [\<lparr>env = [(''platform'', FirefoxPlatform_getType), (''type'', Type_N64)],
       buttons_byButton = [2, 1, 3, 0, 4, 5, - 1, - 1, 8, 9, - 1, - 1, 12, 13, 14, 15, - 1],
       buttons_byAxis = None,
       axes_byAxis = [1, 2, - 1, - 1]\<rparr>,
      \<lparr>env = [(''platform'', WebKitPlatform_getType), (''type'', Type_N64)],
       buttons_byButton = [2, 1, 3, 0, 4, 5, - 1, - 1, 8, 9, - 1, - 1, 12, 13, 14, 15, - 1],
       buttons_byAxis = None,
       axes_byAxis = [0, 1, - 1, - 1]\<rparr>,
      \<lparr>env = [(''platform'', FirefoxPlatform_getType), (''type'', Type_XBOX)],
       buttons_byButton = [0, 1, 2, 3, 4, 5, 15, 16, 9, 8, 6, 7, 11, 12, 13, 14, 10],
       buttons_byAxis = None,
       axes_byAxis = [0, 1, 2, 3]\<rparr>,
      \<lparr>env = [(''platform'', FirefoxPlatform_getType), (''type'', Type_PLAYSTATION)],
       buttons_byButton = [14, 13, 15, 12, 10, 11, 8, 9, 0, 3, 1, 2, 4, 6, 7, 5, 16],
       buttons_byAxis = None,
       axes_byAxis = [0, 1, 2, 3]\<rparr>,
      \<lparr>env = [(''platform'', WebKitPlatform_getType), (''type'', Type_LOGITECH)],
       buttons_byButton = [1, 2, 0, 3, 4, 5, 6, 7, 8, 9, 10, 11, 11, 12, 13, 14, 10],
       buttons_byAxis = None,
       axes_byAxis = [0, 1, 2, 3]\<rparr>,
      \<lparr>env = [(''platform'', FirefoxPlatform_getType), (''type'', Type_LOGITECH)],
       buttons_byButton = [0, 1, 2, 3, 4, 5, - 1, - 1, 6, 7, 8, 9, 11, 12, 13, 14, 10],
       buttons_byAxis = Some [Index (- 1), Index (- 1), Index (- 1), Index (- 1), Index (- 1),
                              Index (- 1), Ranged 2 0 1, Ranged 2 0 (- 1)],
       axes_byAxis = [0, 1, 3, 4]\<rparr>]"

subsection \<open>envMatchesFilter and _resolveMapping\<close>

text \<open>
  \<open>for (let field in filter) if (filter[field] !== env[field]) result = false\<close>; a field
  that \<open>env\<close> lacks reads as \<open>undefined\<close>, here \<open>None\<close>.
\<close>

fun envMatchesFilter_loop ::
    "(string \<times> string) list \<Rightarrow> (string \<times> string) list \<Rightarrow> bool \<Rightarrow> bool" where
  "envMatchesFilter_loop [] e result = result"
| "envMatchesFilter_loop ((field, v) # fs) e result =
     envMatchesFilter_loop fs e (if Some v \<noteq> map_of e field then False else result)"

definition envMatchesFilter :: "(string \<times> string) list \<Rightarrow> (string \<times> string) list \<Rightarrow> bool" where
  "envMatchesFilter flt e = envMatchesFilter_loop flt e True"

text \<open>
  \<open>for (let i = 0; !mapping && i < mappings.length; i++)\<close>: the loop ends once \<open>mapping\<close>
  is set.
\<close>

fun resolveMapping_loop ::
    "mapping option \<Rightarrow> mapping list \<Rightarrow> (string \<times> string) list \<Rightarrow> mapping option" where
  "resolveMapping_loop (Some m) tests e = Some m"
| "resolveMapping_loop None [] e = None"
| "resolveMapping_loop None (test # tests) e =
     resolveMapping_loop (if envMatchesFilter (env test) e then Some test else None) tests e"

text \<open>
  \<open>_resolveMapping(gamepad)\<close> reads \<open>this.platform.getType()\<close> and \<open>gamepad.id\<close>;
  \<open>mapping || Gamepad.StandardMapping\<close> is the fallback.
\<close>

definition resolveMapping :: "string \<Rightarrow> string \<Rightarrow> mapping" where
  "resolveMapping platformType gid =
     (let e = [(''platform'', platformType), (''type'', resolveControllerType gid)]
      in case resolveMapping_loop None Mappings e of
           None \<Rightarrow> StandardMapping
         | Some m \<Rightarrow> m)"

section \<open>Notions of the specification and states of play\<close>

text \<open>\<open>piece_cell p y x\<close>: the piece of player \<open>p\<close> has a non-zero cell in row \<open>y\<close>, column \<open>x\<close>.\<close>

definition piece_cell :: "player \<Rightarrow> nat \<Rightarrow> nat \<Rightarrow> bool" where
  "piece_cell p y x =
     (y < length (matrix p) \<and> x < length (matrix p ! y) \<and> matrix p ! y ! x \<noteq> 0)"

text \<open>An arena of width \<open>w\<close>: every row has \<open>w\<close> cells.\<close>

definition rectangular :: "nat \<Rightarrow> matrix \<Rightarrow> bool" where
  "rectangular w a = list_all (\<lambda>row. length row = w) a"

text \<open>An empty arena: every cell is zero.\<close>

definition arena_empty :: "matrix \<Rightarrow> bool" where
  "arena_empty a = list_all (list_all (\<lambda>v. v = 0)) a"

text \<open>Row \<open>r\<close>, column \<open>c\<close> lies in \<open>[0, w) \<times> [0, h)\<close> (columns by rows).\<close>

definition in_bounds :: "nat \<Rightarrow> nat \<Rightarrow> int \<Rightarrow> int \<Rightarrow> bool" where
  "in_bounds w h r c = (0 \<le> c \<and> c < int w \<and> 0 \<le> r \<and> r < int h)"

text \<open>
  Every non-zero cell of the piece lies above the top of the arena, in a column of the arena.
\<close>

definition above_top_in_columns :: "nat \<Rightarrow> player \<Rightarrow> bool" where
  "above_top_in_columns w p =
     (\<forall>y x. piece_cell p y x \<longrightarrow>
        pos_y p + int y < 0 \<and> 0 \<le> pos_x p + int x \<and> pos_x p + int x < int w)"

text \<open>A row is full when it has no empty cell.\<close>

definition row_full :: "nat list \<Rightarrow> bool" where
  "row_full row = (\<not> has_empty_cell row)"

text \<open>
  What one call of \<open>arenaSweep\<close> clears. The scan runs from the bottom row up to row 1, and
  every cleared row pushes the rows above it down by one: once a full row below the top row
  is cleared, the top row comes into the scan as well. So the sweep clears every full row
  when some row below the top row is full, and no row otherwise. \<open>rows_cleared\<close> is the
  number of rows cleared, \<open>rows_kept\<close> the rows that stay, in their order.
\<close>

definition rows_cleared :: "matrix \<Rightarrow> nat" where
  "rows_cleared a = (if list_ex row_full (tl a) then length (filter row_full a) else 0)"

definition rows_kept :: "matrix \<Rightarrow> matrix" where
  "rows_kept a = (if list_ex row_full (tl a) then filter has_empty_cell a else a)"


text \<open>
  A state of play: the 12 by 20 arena with a stack four rows high that leaves a well one
  column wide at column 5, and the I piece standing in the well (its cells are column 5,
  rows 16 to 19).
\<close>

definition well_state :: game where
  "well_state =
     \<lparr>arena = createMatrix 12 16 @ replicate 4 [1, 1, 1, 1, 1, 0, 1, 1, 1, 1, 1, 1],
      player = \<lparr>pos_x = 4, pos_y = 16, matrix = createPiece Piece_I, score = 0\<rparr>,
      gamePaused = False, mode = Normal, speedModifier = 1\<rparr>"

text \<open>
  The matrices a player can hold in play: each of the seven pieces, turned clockwise zero
  to three times.
\<close>

definition piece_matrices :: "matrix list" where
  "piece_matrices =
     concat (map (\<lambda>t. map (\<lambda>k. case rotate_times k (createPiece t) 1 of
                                    Inl e \<Rightarrow> [] | Inr m \<Rightarrow> m) [0, 1, 2, 3])
       [Piece_I, Piece_L, Piece_J, Piece_O, Piece_Z, Piece_S, Piece_T])"

text \<open>
  A state of play with score \<open>s\<close>, as \<open>playerDrop\<close> hands it to \<open>updateScore\<close>: just
  before, \<open>playerReset\<close> has set \<open>speedModifier = 1\<close> and put a fresh piece at the top
  (here the O piece, at column 5).
\<close>

definition scored_state :: "nat \<Rightarrow> game" where
  "scored_state s =
     \<lparr>arena = createMatrix 12 20,
      player = \<lparr>pos_x = 5, pos_y = 0, matrix = createPiece Piece_O, score = s\<rparr>,
      gamePaused = False, mode = Normal, speedModifier = 1\<rparr>"

section \<open>collide\<close>

lemma ex_less_Cons:
  "(\<exists>n<length (v # vs). Q n) \<longleftrightarrow> Q 0 \<or> (\<exists>n<length vs. Q (Suc n))"
proof
  assume "\<exists>n<length (v # vs). Q n"
  then obtain n where n: "n < length (v # vs)" "Q n" by blast
  show "Q 0 \<or> (\<exists>n<length vs. Q (Suc n))"
  proof (cases n)
    case 0
    with n show ?thesis by simp
  next
    case (Suc k)
    with n have "k < length vs \<and> Q (Suc k)" by simp
    then show ?thesis by blast
  qed
next
  assume "Q 0 \<or> (\<exists>n<length vs. Q (Suc n))"
  then show "\<exists>n<length (v # vs). Q n"
  proof
    assume "Q 0"
    then have "0 < length (v # vs) \<and> Q 0" by simp
    then show ?thesis by blast
  next
    assume "\<exists>n<length vs. Q (Suc n)"
    then obtain k where "k < length vs" "Q (Suc k)" by blast
    then have "Suc k < length (v # vs) \<and> Q (Suc k)" by simp
    then show ?thesis by blast
  qed
qed

text \<open>The inner loop finds a cell exactly when the row has one that collides.\<close>

lemma collide_row_iff:
  "collide_row a r c vs \<longleftrightarrow>
     (\<exists>x<length vs. vs ! x \<noteq> 0 \<and> arena_at a r (c + int x) \<noteq> Some 0)"
proof (induction vs arbitrary: c)
  case Nil
  show ?case by simp
next
  case (Cons v vs)
  have s: "c + int (Suc x) = c + 1 + int x" for x by simp
  have "(\<exists>x<length (v # vs). (v # vs) ! x \<noteq> 0 \<and> arena_at a r (c + int x) \<noteq> Some 0)
      \<longleftrightarrow> (v \<noteq> 0 \<and> arena_at a r c \<noteq> Some 0)
          \<or> (\<exists>x<length vs. vs ! x \<noteq> 0 \<and> arena_at a r (c + 1 + int x) \<noteq> Some 0)"
    unfolding ex_less_Cons s by simp
  with Cons.IH [of "c + 1"] show ?case by simp
qed

lemma collide_rows_iff:
  "collide_rows a r c m \<longleftrightarrow>
     (\<exists>y<length m. \<exists>x<length (m ! y). m ! y ! x \<noteq> 0
        \<and> arena_at a (r + int y) (c + int x) \<noteq> Some 0)"
proof (induction m arbitrary: r)
  case Nil
  show ?case by simp
next
  case (Cons row rows)
  let ?A = "\<exists>x<length row. row ! x \<noteq> 0 \<and> arena_at a r (c + int x) \<noteq> Some 0"
  let ?B = "\<exists>y<length rows. \<exists>x<length (rows ! y). rows ! y ! x \<noteq> 0
        \<and> arena_at a (r + 1 + int y) (c + int x) \<noteq> Some 0"
  have l: "collide_rows a r c (row # rows) \<longleftrightarrow> ?A \<or> ?B"
    using Cons.IH [of "r + 1"] collide_row_iff [of a r c row] by auto
  have s: "r + int (Suc y) = r + 1 + int y" for y by simp
  have "(\<exists>y<length (row # rows). \<exists>x<length ((row # rows) ! y). (row # rows) ! y ! x \<noteq> 0
        \<and> arena_at a (r + int y) (c + int x) \<noteq> Some 0) \<longleftrightarrow> ?A \<or> ?B"
    unfolding ex_less_Cons s by simp
  with l show ?case by simp
qed

text \<open>
  \<open>collide\<close> returns true exactly when some non-zero cell of the piece meets something other
  than an empty arena cell: an occupied cell, or no cell at all.
\<close>

lemma collide_iff:
  "collide a p \<longleftrightarrow>
     (\<exists>y x. piece_cell p y x \<and> arena_at a (pos_y p + int y) (pos_x p + int x) \<noteq> Some 0)"
  unfolding collide_def collide_rows_iff piece_cell_def by blast

lemma arena_at_in_bounds:
  assumes "rectangular w a" "in_bounds w (length a) r c"
  shows "arena_at a r c = Some (a ! nat r ! nat c)"
proof -
  from assms(2) have r: "nat r < length a" by (simp add: in_bounds_def nat_less_iff)
  with assms(1) have "length (a ! nat r) = w" by (simp add: rectangular_def list_all_length)
  with assms(2) show ?thesis by (simp add: arena_at_def in_bounds_def)
qed

lemma arena_at_out_of_bounds:
  assumes "rectangular w a" "\<not> in_bounds w (length a) r c"
  shows "arena_at a r c = None"
proof (cases "0 \<le> r \<and> r < int (length a)")
  case True
  then have "nat r < length a" by (simp add: nat_less_iff)
  with assms(1) have "length (a ! nat r) = w" by (simp add: rectangular_def list_all_length)
  with assms(2) True show ?thesis by (auto simp: arena_at_def in_bounds_def)
next
  case False
  then show ?thesis by (auto simp: arena_at_def)
qed

lemma arena_at_above_top: "r < 0 \<Longrightarrow> arena_at a r c = None"
  by (simp add: arena_at_def)

lemma arena_empty_cell:
  assumes "arena_empty a" "r < length a" "c < length (a ! r)"
  shows "a ! r ! c = 0"
  using assms by (simp add: arena_empty_def list_all_length)

lemma rectangular_createMatrix: "rectangular w (createMatrix w h)"
  by (simp add: rectangular_def createMatrix_def list_all_length)

lemma arena_empty_createMatrix: "arena_empty (createMatrix w h)"
  by (simp add: arena_empty_def createMatrix_def list_all_length)

lemma piece_cell_O:
  "piece_cell \<lparr>pos_x = c, pos_y = r, matrix = createPiece Piece_O, score = s\<rparr> y x
     \<longleftrightarrow> y < 2 \<and> x < 2"
  by (auto simp: piece_cell_def less_Suc_eq numeral_2_eq_2)

text \<open>
  C1. For an arena of width \<open>w\<close>: \<open>collide\<close> returns false when the arena is empty and every
  non-zero cell of the piece lies within the bounds, and returns true when some non-zero cell
  of the piece lies outside \<open>[0, w) \<times> [0, height)\<close> or on a non-zero cell of the arena.
\<close>

theorem collide_spec:
  assumes "rectangular w a"
  shows "(arena_empty a \<and> (\<forall>y x. piece_cell p y x \<longrightarrow>
            in_bounds w (length a) (pos_y p + int y) (pos_x p + int x)) \<longrightarrow> \<not> collide a p)
       \<and> ((\<exists>y x. piece_cell p y x \<and>
             (\<not> in_bounds w (length a) (pos_y p + int y) (pos_x p + int x)
              \<or> a ! nat (pos_y p + int y) ! nat (pos_x p + int x) \<noteq> 0)) \<longrightarrow> collide a p)"
proof (intro conjI impI)
  assume h: "arena_empty a \<and> (\<forall>y x. piece_cell p y x \<longrightarrow>
            in_bounds w (length a) (pos_y p + int y) (pos_x p + int x))"
  show "\<not> collide a p"
  proof
    assume "collide a p"
    then obtain y x where c: "piece_cell p y x"
      and n: "arena_at a (pos_y p + int y) (pos_x p + int x) \<noteq> Some 0"
      unfolding collide_iff by blast
    from h c have b: "in_bounds w (length a) (pos_y p + int y) (pos_x p + int x)" by blast
    from arena_at_in_bounds [OF assms b]
    have e: "arena_at a (pos_y p + int y) (pos_x p + int x)
        = Some (a ! nat (pos_y p + int y) ! nat (pos_x p + int x))" .
    from b have r: "nat (pos_y p + int y) < length a"
      by (simp add: in_bounds_def nat_less_iff)
    with assms have "length (a ! nat (pos_y p + int y)) = w"
      by (simp add: rectangular_def list_all_length)
    with b have "nat (pos_x p + int x) < length (a ! nat (pos_y p + int y))"
      by (simp add: in_bounds_def nat_less_iff)
    with h r have "a ! nat (pos_y p + int y) ! nat (pos_x p + int x) = 0"
      using arena_empty_cell by blast
    with e n show False by simp
  qed
next
  assume "\<exists>y x. piece_cell p y x \<and>
             (\<not> in_bounds w (length a) (pos_y p + int y) (pos_x p + int x)
              \<or> a ! nat (pos_y p + int y) ! nat (pos_x p + int x) \<noteq> 0)"
  then obtain y x where c: "piece_cell p y x"
    and d: "\<not> in_bounds w (length a) (pos_y p + int y) (pos_x p + int x)
              \<or> a ! nat (pos_y p + int y) ! nat (pos_x p + int x) \<noteq> 0" by blast
  have "arena_at a (pos_y p + int y) (pos_x p + int x) \<noteq> Some 0"
  proof (cases "in_bounds w (length a) (pos_y p + int y) (pos_x p + int x)")
    case True
    with d arena_at_in_bounds [OF assms True] show ?thesis by simp
  next
    case False
    with arena_at_out_of_bounds [OF assms False] show ?thesis by simp
  qed
  with c show "collide a p" unfolding collide_iff by blast
qed

text \<open>
  The O piece in the empty 12 by 20 arena: at column 5, row 0 it lies within the bounds and
  does not collide; at column 11 its right column is outside; and at column 5, row 18 of an
  arena whose bottom row is occupied it lies on occupied cells.
\<close>

theorem collide_spec_witness:
  "\<not> collide (createMatrix 12 20)
        \<lparr>pos_x = 5, pos_y = 0, matrix = createPiece Piece_O, score = 0\<rparr>
   \<and> collide (createMatrix 12 20)
        \<lparr>pos_x = 11, pos_y = 0, matrix = createPiece Piece_O, score = 0\<rparr>
   \<and> collide (createMatrix 12 19 @ [replicate 12 1])
        \<lparr>pos_x = 5, pos_y = 18, matrix = createPiece Piece_O, score = 0\<rparr>"
proof (intro conjI)
  let ?p = "\<lambda>c r. \<lparr>pos_x = c, pos_y = r, matrix = createPiece Piece_O, score = 0\<rparr>"
  have inside: "\<forall>y x. piece_cell (?p 5 0) y x \<longrightarrow>
      in_bounds 12 (length (createMatrix 12 20)) (pos_y (?p 5 0) + int y) (pos_x (?p 5 0) + int x)"
    unfolding piece_cell_O by (simp add: in_bounds_def createMatrix_def)
  from collide_spec [OF rectangular_createMatrix, of 12 20 "?p 5 0"] inside
  show "\<not> collide (createMatrix 12 20) (?p 5 0)"
    by (simp add: arena_empty_createMatrix)
  have "piece_cell (?p 11 0) 0 1
      \<and> \<not> in_bounds 12 (length (createMatrix 12 20)) (pos_y (?p 11 0) + int 0)
            (pos_x (?p 11 0) + int 1)"
    unfolding piece_cell_O by (simp add: in_bounds_def)
  with collide_spec [OF rectangular_createMatrix, of 12 20 "?p 11 0"]
  show "collide (createMatrix 12 20) (?p 11 0)" by blast
  let ?a = "createMatrix 12 19 @ [replicate 12 1]"
  have rect: "rectangular 12 ?a"
    using rectangular_createMatrix [of 12 19] by (simp add: rectangular_def)
  have "?a ! 19 ! 5 = 1"
    by (simp add: createMatrix_def nth_append)
  then have "piece_cell (?p 5 18) 1 0
      \<and> ?a ! nat (pos_y (?p 5 18) + int 1) ! nat (pos_x (?p 5 18) + int 0) \<noteq> 0"
    unfolding piece_cell_O by simp
  with collide_spec [OF rect, of "?p 5 18"]
  show "collide ?a (?p 5 18)" by blast
qed

text \<open>
  C5, as stated, fails: the O piece two rows above the top of the empty 12 by 20 arena has
  all its non-zero cells above the top and within the columns, and \<open>collide\<close> returns true.
\<close>

theorem collide_above_top_counterexample:
  "above_top_in_columns 12 \<lparr>pos_x = 5, pos_y = - 2, matrix = createPiece Piece_O, score = 0\<rparr>
   \<and> collide (createMatrix 12 20)
        \<lparr>pos_x = 5, pos_y = - 2, matrix = createPiece Piece_O, score = 0\<rparr>"
proof
  show "above_top_in_columns 12
      \<lparr>pos_x = 5, pos_y = - 2, matrix = createPiece Piece_O, score = 0\<rparr>"
    unfolding above_top_in_columns_def piece_cell_O by auto
  have "piece_cell \<lparr>pos_x = 5, pos_y = - 2, matrix = createPiece Piece_O, score = 0\<rparr> 0 0"
    unfolding piece_cell_O by simp
  then show "collide (createMatrix 12 20)
      \<lparr>pos_x = 5, pos_y = - 2, matrix = createPiece Piece_O, score = 0\<rparr>"
    unfolding collide_iff by (intro exI [of _ 0]) (simp add: arena_at_above_top)
qed

text \<open>
  C5, amended. \<open>collide\<close> treats rows above the top of the arena as colliding: for every
  arena and every player whose piece has a non-zero cell with row index
  \<open>y + player.pos.y < 0\<close>, whatever its column, \<open>collide\<close> returns true.
\<close>

theorem collide_above_top:
  assumes "piece_cell p y x" and "pos_y p + int y < 0"
  shows "collide a p"
proof -
  from assms(2) have "arena_at a (pos_y p + int y) (pos_x p + int x) = None"
    by (rule arena_at_above_top)
  then have "arena_at a (pos_y p + int y) (pos_x p + int x) \<noteq> Some 0"
    by simp
  with assms(1) show ?thesis unfolding collide_iff by blast
qed

text \<open>The T piece one row above the top of the empty arena: its top row is above the top.\<close>

theorem collide_above_top_witness:
  "collide (createMatrix 12 20)
     \<lparr>pos_x = 4, pos_y = - 1, matrix = createPiece Piece_T, score = 0\<rparr>"
proof -
  let ?p = "\<lparr>pos_x = 4, pos_y = - 1, matrix = createPiece Piece_T, score = 0\<rparr>"
  have c: "piece_cell ?p 0 1" by (simp add: piece_cell_def)
  have r: "pos_y ?p + int 0 < 0" by simp
  from collide_above_top [OF c r] show ?thesis .
qed

section \<open>playerMove\<close>

text \<open>
  C10. When the game is not paused or the mode is Fill, and the piece shifted by \<open>offset\<close>
  collides, \<open>playerMove(offset)\<close> leaves the whole state as it was: the player's position,
  matrix and score, and the arena.
\<close>

theorem playerMove_collision_unchanged:
  assumes "gamePaused g = False \<or> mode g = Fill"
    and "collide (arena g) ((player g)\<lparr>pos_x := pos_x (player g) + offset\<rparr>)"
  shows "playerMove offset g = g"
proof -
  from assms(1) have guard: "gamePaused g = False \<or> mode g \<noteq> Normal" by auto
  have undo: "(player g)\<lparr>pos_x := pos_x (player g) + offset,
      pos_x := pos_x (player g) + offset - offset\<rparr> = player g"
    by simp
  from guard assms(2) undo show ?thesis
    by (simp add: playerMove_def Let_def)
qed

text \<open>
  The O piece at column 10 of the empty 12 by 20 arena occupies columns 10 and 11; a move
  by 1 would take it out of the arena.
\<close>

theorem playerMove_collision_unchanged_witness:
  "playerMove 1
     \<lparr>arena = createMatrix 12 20,
      player = \<lparr>pos_x = 10, pos_y = 0, matrix = createPiece Piece_O, score = 30\<rparr>,
      gamePaused = False, mode = Normal, speedModifier = 1\<rparr>
   = \<lparr>arena = createMatrix 12 20,
      player = \<lparr>pos_x = 10, pos_y = 0, matrix = createPiece Piece_O, score = 30\<rparr>,
      gamePaused = False, mode = Normal, speedModifier = 1\<rparr>"
proof -
  let ?g = "\<lparr>arena = createMatrix 12 20,
      player = \<lparr>pos_x = 10, pos_y = 0, matrix = createPiece Piece_O, score = 30\<rparr>,
      gamePaused = False, mode = Normal, speedModifier = 1\<rparr>"
  have p: "gamePaused ?g = False \<or> mode ?g = Fill" by simp
  have "piece_cell \<lparr>pos_x = 11, pos_y = 0, matrix = createPiece Piece_O, score = 30\<rparr> 0 1"
    unfolding piece_cell_O by simp
  then have "collide (createMatrix 12 20)
      \<lparr>pos_x = 11, pos_y = 0, matrix = createPiece Piece_O, score = 30\<rparr>"
    unfolding collide_iff
    by (intro exI [of _ 0] exI [of _ 1]) (simp add: arena_at_def createMatrix_def)
  then have c: "collide (arena ?g) ((player ?g)\<lparr>pos_x := pos_x (player ?g) + 1\<rparr>)"
    by simp
  from playerMove_collision_unchanged [OF p c] show ?thesis .
qed

section \<open>rotate\<close>

text \<open>Only the sign of \<open>dir\<close> matters to \<open>rotate\<close>.\<close>

lemma rotate_clockwise: "0 < dir \<Longrightarrow> rotate m dir = rotate m 1"
  by (simp add: rotate_def split: sum.splits)

lemma rotate_counter_clockwise: "dir \<le> 0 \<Longrightarrow> rotate m dir = rotate m 0"
  by (simp add: rotate_def split: sum.splits)

lemma rotate_times_clockwise: "0 < dir \<Longrightarrow> rotate_times n m dir = rotate_times n m 1"
proof (induction n arbitrary: m)
  case 0
  show ?case by simp
next
  case (Suc n)
  from Suc.prems have r: "rotate m dir = rotate m 1" by (rule rotate_clockwise)
  show ?case by (simp add: r Suc.IH [OF Suc.prems] split: sum.splits)
qed

lemma rotate_times_counter_clockwise:
  "dir \<le> 0 \<Longrightarrow> rotate_times n m dir = rotate_times n m 0"
proof (induction n arbitrary: m)
  case 0
  show ?case by simp
next
  case (Suc n)
  from Suc.prems have r: "rotate m dir = rotate m 0" by (rule rotate_counter_clockwise)
  show ?case by (simp add: r Suc.IH [OF Suc.prems] split: sum.splits)
qed

lemma rotate4_clockwise: "rotate_times 4 (createPiece t) 1 = Inr (createPiece t)"
proof (cases t)
  case Piece_I
  show ?thesis unfolding Piece_I by code_simp
next
  case Piece_L
  show ?thesis unfolding Piece_L by code_simp
next
  case Piece_J
  show ?thesis unfolding Piece_J by code_simp
next
  case Piece_O
  show ?thesis unfolding Piece_O by code_simp
next
  case Piece_Z
  show ?thesis unfolding Piece_Z by code_simp
next
  case Piece_S
  show ?thesis unfolding Piece_S by code_simp
next
  case Piece_T
  show ?thesis unfolding Piece_T by code_simp
qed

lemma rotate4_counter_clockwise: "rotate_times 4 (createPiece t) 0 = Inr (createPiece t)"
proof (cases t)
  case Piece_I
  show ?thesis unfolding Piece_I by code_simp
next
  case Piece_L
  show ?thesis unfolding Piece_L by code_simp
next
  case Piece_J
  show ?thesis unfolding Piece_J by code_simp
next
  case Piece_O
  show ?thesis unfolding Piece_O by code_simp
next
  case Piece_Z
  show ?thesis unfolding Piece_Z by code_simp
next
  case Piece_S
  show ?thesis unfolding Piece_S by code_simp
next
  case Piece_T
  show ?thesis unfolding Piece_T by code_simp
qed

text \<open>
  C2. For each of the seven pieces of \<open>createPiece\<close> and every direction, four calls of
  \<open>rotate\<close> with that direction (clockwise when \<open>dir > 0\<close>, counter-clockwise otherwise) run
  without a fault and give back the matrix the piece started with.
\<close>

theorem rotate_four_times: "rotate_times 4 (createPiece t) dir = Inr (createPiece t)"
proof (cases "0 < dir")
  case True
  then have "rotate_times 4 (createPiece t) dir = rotate_times 4 (createPiece t) 1"
    by (rule rotate_times_clockwise)
  also have "\<dots> = Inr (createPiece t)"
    by (rule rotate4_clockwise)
  finally show ?thesis .
next
  case False
  then have "dir \<le> 0" by simp
  then have "rotate_times 4 (createPiece t) dir = rotate_times 4 (createPiece t) 0"
    by (rule rotate_times_counter_clockwise)
  also have "\<dots> = Inr (createPiece t)"
    by (rule rotate4_counter_clockwise)
  finally show ?thesis .
qed

theorem rotate_four_times_witness:
  "rotate_times 4 (createPiece Piece_T) 1 = Inr [[0, 7, 0], [7, 7, 7], [0, 0, 0]]
   \<and> rotate_times 4 (createPiece Piece_L) 0 = Inr [[0, 2, 0], [0, 2, 0], [0, 2, 2]]"
  using rotate_four_times [of Piece_T 1] rotate_four_times [of Piece_L 0] by simp

section \<open>updateScore\<close>

lemma band_cases:
  assumes "1 \<le> (k::nat)" "k \<le> 9"
  shows "k = 1 \<or> k = 2 \<or> k = 3 \<or> k = 4 \<or> k = 5 \<or> k = 6 \<or> k = 7 \<or> k = 8 \<or> k = 9"
proof -
  have e: "[1..<10] = [1, 2, 3, 4, 5, 6, 7, 8, 9 :: nat]" by code_simp
  from assms have "k \<in> set [1..<10]" by simp
  then show ?thesis unfolding e by simp
qed

text \<open>
  C7 fails on the code at the thresholds themselves and from 300 on. The branches of
  \<open>updateScore\<close> test \<open>score > 30 && score < 60\<close>, \<open>score > 60 && score < 90\<close>, and so
  on up to \<open>score > 270 && score < 300\<close>, with no branch for 60, 90, ..., 270 nor for 300
  and more. Scores are multiples of 10, so these are scores of play. With the multiplier at
  the base value 1, where \<open>playerReset\<close> puts it before every call: at 50 it becomes 0.9 and
  at 70 it becomes 0.8, but at 60, with the threshold 30 crossed, it stays 1; at 290 it
  becomes 0.1, but at 300, with every threshold crossed, it stays 1 and not at the floor 0.1.
\<close>

theorem updateScore_threshold_not_lowered:
  "speedModifier (updateScore (scored_state 50)) = 0.9
   \<and> speedModifier (updateScore (scored_state 60)) = 1
   \<and> speedModifier (updateScore (scored_state 70)) = 0.8
   \<and> speedModifier (updateScore (scored_state 290)) = 0.1
   \<and> speedModifier (updateScore (scored_state 300)) = 1"
  by (simp add: updateScore_def scored_state_def Let_def)

text \<open>
  What the code does do: after \<open>updateScore\<close>, a score strictly inside the \<open>k\<close>-th band of
  30 points (\<open>30k < score < 30(k+1)\<close>, \<open>k = 1..9\<close>) gives \<open>speedModifier = 1 - 0.1 k\<close>; and
  \<open>updateScore\<close> never takes a multiplier of 0.1 or more below 0.1.
\<close>

theorem updateScore_speedModifier:
  "(1 \<le> k \<and> k \<le> 9 \<and> 30 * k < score (player g) \<and> score (player g) < 30 * (k + 1)
      \<longrightarrow> speedModifier (updateScore g) = 1 - 0.1 * real k)
   \<and> (0.1 \<le> speedModifier g \<longrightarrow> 0.1 \<le> speedModifier (updateScore g))"
proof (intro conjI impI)
  assume h: "1 \<le> k \<and> k \<le> 9 \<and> 30 * k < score (player g) \<and> score (player g) < 30 * (k + 1)"
  then have "k = 1 \<or> k = 2 \<or> k = 3 \<or> k = 4 \<or> k = 5 \<or> k = 6 \<or> k = 7 \<or> k = 8 \<or> k = 9"
    using band_cases [of k] by blast
  then show "speedModifier (updateScore g) = 1 - 0.1 * real k"
    using h by (elim disjE) (simp_all add: updateScore_def Let_def)
next
  assume "0.1 \<le> speedModifier g"
  then show "0.1 \<le> speedModifier (updateScore g)"
    by (simp add: updateScore_def Let_def)
qed

text \<open>A score of 70 lies in the second band.\<close>

theorem updateScore_speedModifier_witness:
  "speedModifier (updateScore
     \<lparr>arena = createMatrix 12 20,
      player = \<lparr>pos_x = 5, pos_y = 0, matrix = createPiece Piece_O, score = 70\<rparr>,
      gamePaused = False, mode = Normal, speedModifier = 1\<rparr>) = 0.8
   \<and> 0.1 \<le> speedModifier (updateScore
     \<lparr>arena = createMatrix 12 20,
      player = \<lparr>pos_x = 5, pos_y = 0, matrix = createPiece Piece_O, score = 70\<rparr>,
      gamePaused = False, mode = Normal, speedModifier = 1\<rparr>)"
  using updateScore_speedModifier [of 2
     "\<lparr>arena = createMatrix 12 20,
      player = \<lparr>pos_x = 5, pos_y = 0, matrix = createPiece Piece_O, score = 70\<rparr>,
      gamePaused = False, mode = Normal, speedModifier = 1\<rparr>"]
  by simp

text \<open>
  At the thresholds themselves no branch of \<open>updateScore\<close> fires: a score of at most 30,
  of 300 or more, or a multiple of 30 leaves \<open>speedModifier\<close>, and the whole state, as it
  is (after \<open>playerReset\<close> that is the base value 1).
\<close>

theorem updateScore_at_threshold:
  "score (player g) \<le> 30 \<or> 300 \<le> score (player g) \<or> 30 dvd score (player g)
     \<longrightarrow> updateScore g = g"
proof
  define sc where "sc = score (player g)"
  assume "score (player g) \<le> 30 \<or> 300 \<le> score (player g) \<or> 30 dvd score (player g)"
  then have h: "sc \<le> 30 \<or> 300 \<le> sc \<or> 30 dvd sc"
    by (simp only: sc_def)
  have b1: "\<not> (30 < sc \<and> sc < 60)" using h by presburger
  have b2: "\<not> (60 < sc \<and> sc < 90)" using h by presburger
  have b3: "\<not> (90 < sc \<and> sc < 120)" using h by presburger
  have b4: "\<not> (120 < sc \<and> sc < 150)" using h by presburger
  have b5: "\<not> (150 < sc \<and> sc < 180)" using h by presburger
  have b6: "\<not> (180 < sc \<and> sc < 210)" using h by presburger
  have b7: "\<not> (210 < sc \<and> sc < 240)" using h by presburger
  have b8: "\<not> (240 < sc \<and> sc < 270)" using h by presburger
  have b9: "\<not> (270 < sc \<and> sc < 300)" using h by presburger
  have "updateScore g =
     (if sc > 30 \<and> sc < 60 then g\<lparr>speedModifier := 0.9\<rparr>
      else if sc > 60 \<and> sc < 90 then g\<lparr>speedModifier := 0.8\<rparr>
      else if sc > 90 \<and> sc < 120 then g\<lparr>speedModifier := 0.7\<rparr>
      else if sc > 120 \<and> sc < 150 then g\<lparr>speedModifier := 0.6\<rparr>
      else if sc > 150 \<and> sc < 180 then g\<lparr>speedModifier := 0.5\<rparr>
      else if sc > 180 \<and> sc < 210 then g\<lparr>speedModifier := 0.4\<rparr>
      else if sc > 210 \<and> sc < 240 then g\<lparr>speedModifier := 0.3\<rparr>
      else if sc > 240 \<and> sc < 270 then g\<lparr>speedModifier := 0.2\<rparr>
      else if sc > 270 \<and> sc < 300 then g\<lparr>speedModifier := 0.1\<rparr>
      else g)"
    unfolding updateScore_def Let_def sc_def ..
  also have "\<dots> = g"
    by (simp only: b1 b2 b3 b4 b5 b6 b7 b8 b9 if_False)
  finally show "updateScore g = g" .
qed

theorem updateScore_at_threshold_witness:
  "updateScore
     \<lparr>arena = createMatrix 12 20,
      player = \<lparr>pos_x = 5, pos_y = 0, matrix = createPiece Piece_O, score = 60\<rparr>,
      gamePaused = False, mode = Normal, speedModifier = 1\<rparr>
   = \<lparr>arena = createMatrix 12 20,
      player = \<lparr>pos_x = 5, pos_y = 0, matrix = createPiece Piece_O, score = 60\<rparr>,
      gamePaused = False, mode = Normal, speedModifier = 1\<rparr>"
  using updateScore_at_threshold [of
     "\<lparr>arena = createMatrix 12 20,
      player = \<lparr>pos_x = 5, pos_y = 0, matrix = createPiece Piece_O, score = 60\<rparr>,
      gamePaused = False, mode = Normal, speedModifier = 1\<rparr>"]
  by simp

section \<open>The deadzone and saturation filter\<close>

text \<open>
  C8. With the defaults (deadzone 0.03, maximizeThreshold 0.97), \<open>_applyDeadzoneMaximize\<close>
  maps every value in the open interval \<open>(-0.03, 0.03)\<close> to 0, every value above 0.97 to 1,
  every value below -0.97 to -1, and returns every other value unchanged.
\<close>

theorem applyDeadzoneMaximize_default:
  "(- 0.03 < v \<and> v < 0.03 \<longrightarrow> applyDeadzoneMaximize new_Gamepad v None None = 0)
   \<and> (0.97 < v \<longrightarrow> applyDeadzoneMaximize new_Gamepad v None None = 1)
   \<and> (v < - 0.97 \<longrightarrow> applyDeadzoneMaximize new_Gamepad v None None = - 1)
   \<and> (\<not> (- 0.03 < v \<and> v < 0.03) \<and> \<not> 0.97 < v \<and> \<not> v < - 0.97
        \<longrightarrow> applyDeadzoneMaximize new_Gamepad v None None = v)"
  by (auto simp: applyDeadzoneMaximize_def new_Gamepad_def Let_def)

theorem applyDeadzoneMaximize_default_witness:
  "applyDeadzoneMaximize new_Gamepad 0.01 None None = 0
   \<and> applyDeadzoneMaximize new_Gamepad (- 0.02) None None = 0
   \<and> applyDeadzoneMaximize new_Gamepad 0.98 None None = 1
   \<and> applyDeadzoneMaximize new_Gamepad (- 0.99) None None = - 1
   \<and> applyDeadzoneMaximize new_Gamepad 0.5 None None = 0.5
   \<and> applyDeadzoneMaximize new_Gamepad 0.03 None None = 0.03"
  using applyDeadzoneMaximize_default [of "0.01"] applyDeadzoneMaximize_default [of "- 0.02"]
    applyDeadzoneMaximize_default [of "0.98"] applyDeadzoneMaximize_default [of "- 0.99"]
    applyDeadzoneMaximize_default [of "0.5"] applyDeadzoneMaximize_default [of "0.03"]
  by simp

section \<open>_resolveMapping\<close>

lemma resolveMapping_loop_no_match:
  "\<forall>m\<in>set ms. \<not> envMatchesFilter (env m) e \<Longrightarrow> resolveMapping_loop None ms e = None"
  by (induction ms) simp_all

lemma resolveControllerType_xbox:
  "resolveControllerType ''Xbox 360 Controller (XInput STANDARD GAMEPAD)'' = Type_XBOX"
  by code_simp

lemma resolveMapping_xbox_firefox:
  "resolveMapping FirefoxPlatform_getType ''Xbox 360 Controller (XInput STANDARD GAMEPAD)''
     = Mappings ! 2"
  by code_simp

lemma Mappings_xbox_firefox:
  "env (Mappings ! 2) = [(''platform'', FirefoxPlatform_getType), (''type'', Type_XBOX)]
   \<and> Mappings ! 2 \<noteq> StandardMapping"
  by (simp add: Mappings_def StandardMapping_def)

text \<open>
  C9. On the Firefox platform the identity string
  \<open>"Xbox 360 Controller (XInput STANDARD GAMEPAD)"\<close> resolves to the entry of
  \<open>Gamepad.Mappings\<close> whose \<open>env\<close> is Firefox and XBOX, which is not the standard mapping;
  and whenever the platform and the controller type match no entry of \<open>Gamepad.Mappings\<close>,
  \<open>_resolveMapping\<close> returns \<open>Gamepad.StandardMapping\<close>.
\<close>

theorem resolveMapping_spec:
  "resolveMapping FirefoxPlatform_getType ''Xbox 360 Controller (XInput STANDARD GAMEPAD)''
     = Mappings ! 2
   \<and> env (Mappings ! 2) = [(''platform'', FirefoxPlatform_getType), (''type'', Type_XBOX)]
   \<and> resolveMapping FirefoxPlatform_getType ''Xbox 360 Controller (XInput STANDARD GAMEPAD)''
     \<noteq> StandardMapping
   \<and> ((\<forall>m\<in>set Mappings. \<not> envMatchesFilter (env m)
          [(''platform'', platformType), (''type'', resolveControllerType gid)])
        \<longrightarrow> resolveMapping platformType gid = StandardMapping)"
proof (intro conjI impI)
  show "resolveMapping FirefoxPlatform_getType
      ''Xbox 360 Controller (XInput STANDARD GAMEPAD)'' = Mappings ! 2"
    by (rule resolveMapping_xbox_firefox)
  show "env (Mappings ! 2) = [(''platform'', FirefoxPlatform_getType), (''type'', Type_XBOX)]"
    using Mappings_xbox_firefox by blast
  show "resolveMapping FirefoxPlatform_getType
      ''Xbox 360 Controller (XInput STANDARD GAMEPAD)'' \<noteq> StandardMapping"
    unfolding resolveMapping_xbox_firefox using Mappings_xbox_firefox by blast
next
  assume "\<forall>m\<in>set Mappings. \<not> envMatchesFilter (env m)
          [(''platform'', platformType), (''type'', resolveControllerType gid)]"
  from resolveMapping_loop_no_match [OF this]
  show "resolveMapping platformType gid = StandardMapping"
    by (simp add: resolveMapping_def)
qed

text \<open>The same controller on the WebKit platform matches no entry.\<close>

theorem resolveMapping_spec_witness:
  "resolveMapping WebKitPlatform_getType ''Xbox 360 Controller (XInput STANDARD GAMEPAD)''
     = StandardMapping"
proof -
  have "list_all (\<lambda>m. \<not> envMatchesFilter (env m)
          [(''platform'', WebKitPlatform_getType),
           (''type'', resolveControllerType ''Xbox 360 Controller (XInput STANDARD GAMEPAD)'')])
        Mappings"
    by code_simp
  then have "\<forall>m\<in>set Mappings. \<not> envMatchesFilter (env m)
          [(''platform'', WebKitPlatform_getType),
           (''type'', resolveControllerType ''Xbox 360 Controller (XInput STANDARD GAMEPAD)'')]"
    by (simp add: list_all_iff)
  with resolveMapping_spec [of WebKitPlatform_getType
      "''Xbox 360 Controller (XInput STANDARD GAMEPAD)''"]
  show ?thesis by blast
qed

section \<open>arenaSweep\<close>

lemma has_empty_cell_iff: "has_empty_cell row \<longleftrightarrow> 0 \<in> set row"
  by (induction row) auto

lemma has_empty_cell_zero_row: "0 < w \<Longrightarrow> has_empty_cell (replicate w 0)"
  by (simp add: has_empty_cell_iff)

lemma filter_row_full_kept: "filter row_full (filter has_empty_cell rows) = []"
  by (induction rows) (simp_all add: row_full_def)

lemma filter_has_empty_none_full:
  "\<not> list_ex row_full rows \<Longrightarrow> filter has_empty_cell rows = rows"
  by (induction rows) (simp_all add: row_full_def)

lemma filter_row_full_none_full:
  "\<not> list_ex row_full rows \<Longrightarrow> filter row_full rows = []"
  by (induction rows) simp_all

lemma length_filter_kept:
  "length (filter has_empty_cell rows) + length (filter row_full rows) = length rows"
  by (induction rows) (simp_all add: row_full_def)

text \<open>The points of \<open>n\<close> rows cleared in one sweep: \<open>10 + 20 + ... + 10 * 2 ^ (n - 1)\<close>.\<close>

lemma points_Suc: "(\<Sum>i<Suc n. 10 * 2 ^ i) = 10 + 2 * (\<Sum>i<n. 10 * 2 ^ i :: nat)"
  by (induction n) simp_all

lemma points_closed_form: "(\<Sum>i<n. 10 * 2 ^ i :: nat) + 10 = 10 * 2 ^ n"
  by (induction n) simp_all

text \<open>
  The loop at row \<open>y\<close>: the rows below \<open>y\<close> are done, the rows \<open>0..y\<close> are swept as
  \<open>rows_cleared\<close> and \<open>rows_kept\<close> say, and the loop returns.
\<close>

lemma arenaSweep_loop_result:
  assumes w: "0 < w"
  shows "rectangular w a \<Longrightarrow> y < length a \<Longrightarrow>
     arenaSweep_loop a y rowCount sc =
       Some (replicate (rows_cleared (take (Suc y) a)) (replicate w 0)
               @ rows_kept (take (Suc y) a) @ drop (Suc y) a,
             sc + rowCount * (\<Sum>i<rows_cleared (take (Suc y) a). 10 * 2 ^ i))"
proof (induction "length (filter row_full (take (Suc y) a)) + y"
    arbitrary: a y rowCount sc rule: less_induct)
  case less
  note rect = \<open>rectangular w a\<close> and y = \<open>y < length a\<close>
  show ?case
  proof (cases "y = 0")
    case True
    from y True have "take (Suc 0) a = [hd a]"
      by (cases a) simp_all
    with True have c: "rows_cleared (take (Suc y) a) = 0"
      and k: "rows_kept (take (Suc y) a) @ drop (Suc y) a = a"
      using y by (cases a; simp add: rows_cleared_def rows_kept_def)+
    from True have "arenaSweep_loop a y rowCount sc = Some (a, sc)"
      by (simp add: arenaSweep_loop.simps)
    with c k show ?thesis by simp
  next
    case False
    then have ypos: "0 < y" by simp
    from y have split: "take (Suc y) a = take y a @ [a ! y]"
      by (simp add: take_Suc_conv_app_nth)
    from ypos y have ne: "take y a \<noteq> []" by auto
    then have tl_split: "tl (take y a @ [a ! y]) = tl (take y a) @ [a ! y]"
      by simp
    from ne obtain r0 rs where top: "take y a = r0 # rs"
      by (cases "take y a") auto
    from ypos have y': "take (Suc (y - 1)) a = take y a" by simp
    from ypos have d': "drop (Suc (y - 1)) a = a ! y # drop (Suc y) a"
      using y by (simp add: Cons_nth_drop_Suc)
    show ?thesis
    proof (cases "has_empty_cell (a ! y)")
      case True
      then have nf: "\<not> row_full (a ! y)" by (simp add: row_full_def)
      have step: "arenaSweep_loop a y rowCount sc = arenaSweep_loop a (y - 1) rowCount sc"
        using ypos True by (subst arenaSweep_loop.simps) simp
      have "length (filter row_full (take (Suc (y - 1)) a)) + (y - 1)
          < length (filter row_full (take (Suc y) a)) + y"
        unfolding y' using ypos by (simp add: split)
      from less.hyps [OF this rect] y
      have ih: "arenaSweep_loop a (y - 1) rowCount sc =
          Some (replicate (rows_cleared (take y a)) (replicate w 0)
                  @ rows_kept (take y a) @ a ! y # drop (Suc y) a,
                sc + rowCount * (\<Sum>i<rows_cleared (take y a). 10 * 2 ^ i))"
        unfolding y' d' by simp
      from nf have c: "rows_cleared (take (Suc y) a) = rows_cleared (take y a)"
        by (simp add: rows_cleared_def split tl_split)
      from nf True have k: "rows_kept (take (Suc y) a) = rows_kept (take y a) @ [a ! y]"
        by (simp add: rows_kept_def split tl_split)
      show ?thesis unfolding step ih c k by simp
    next
      case False
      then have full: "row_full (a ! y)" by (simp add: row_full_def)
      let ?z = "replicate w (0::nat)"
      let ?a' = "?z # take y a @ drop (Suc y) a"
      from rect y have wy: "length (a ! y) = w"
        by (simp add: rectangular_def list_all_length)
      have step: "arenaSweep_loop a y rowCount sc =
          arenaSweep_loop ?a' y (rowCount * 2) (sc + rowCount * 10)"
        using ypos False by (subst arenaSweep_loop.simps) (simp add: wy)
      from rect have rect': "rectangular w ?a'"
        by (auto simp: rectangular_def list_all_iff dest: in_set_takeD in_set_dropD)
      from y have len': "y < length ?a'" by simp
      from y have t': "take (Suc y) ?a' = ?z # take y a" by simp
      from y have dr': "drop (Suc y) ?a' = drop (Suc y) a" by simp
      from w have znf: "\<not> row_full ?z"
        by (simp add: row_full_def has_empty_cell_zero_row)
      have "length (filter row_full (take (Suc y) ?a')) + y
          < length (filter row_full (take (Suc y) a)) + y"
        unfolding t' using znf full by (simp add: split)
      from less.hyps [OF this rect' len']
      have ih: "arenaSweep_loop ?a' y (rowCount * 2) (sc + rowCount * 10) =
          Some (replicate (rows_cleared (?z # take y a)) ?z
                  @ rows_kept (?z # take y a) @ drop (Suc y) a,
                sc + rowCount * 10
                  + rowCount * 2 * (\<Sum>i<rows_cleared (?z # take y a). 10 * 2 ^ i))"
        unfolding t' dr' .
      from full have ex: "list_ex row_full (tl (take (Suc y) a))"
        unfolding split tl_split by simp
      have c: "rows_cleared (take (Suc y) a) = Suc (length (filter row_full (take y a)))"
        using ex full by (simp add: rows_cleared_def split)
      have k: "rows_kept (take (Suc y) a) = filter has_empty_cell (take y a)"
        using ex False by (simp add: rows_kept_def split)
      show ?thesis
      proof (cases "list_ex row_full (take y a)")
        case True
        then have c': "rows_cleared (?z # take y a) = length (filter row_full (take y a))"
          using znf by (simp add: rows_cleared_def)
        from True have k': "rows_kept (?z # take y a) = ?z # filter has_empty_cell (take y a)"
          using w by (simp add: rows_kept_def has_empty_cell_zero_row)
        show ?thesis
          unfolding step ih c k c' k'
          by (simp add: replicate_app_Cons_same points_Suc algebra_simps del: sum.lessThan_Suc)
      next
        case False
        then have c': "rows_cleared (?z # take y a) = 0"
          by (simp add: rows_cleared_def)
        from False have k': "rows_kept (?z # take y a) = ?z # take y a"
          by (simp add: rows_kept_def)
        from False have n0: "filter row_full (take y a) = []"
          by (rule filter_row_full_none_full)
        from False have all: "filter has_empty_cell (take y a) = take y a"
          by (rule filter_has_empty_none_full)
        show ?thesis
          unfolding step ih c k c' k' n0 all by simp
      qed
    qed
  qed
qed

text \<open>
  \<open>arenaSweep\<close> on an arena of positive width, outside Fill mode: it returns, with
  \<open>rows_cleared\<close> empty rows on top of the rows kept and the score raised by the points.
\<close>

lemma arenaSweep_result:
  assumes "mode g \<noteq> Fill" "rectangular w (arena g)" "0 < w"
  shows "arenaSweep g =
     Some (g\<lparr>arena := replicate (rows_cleared (arena g)) (replicate w 0) @ rows_kept (arena g),
             player := (player g)\<lparr>score := score (player g)
                + (\<Sum>i<rows_cleared (arena g). 10 * 2 ^ i)\<rparr>\<rparr>)"
proof (cases "arena g = []")
  case True
  then have "arenaSweep_loop (arena g) (length (arena g) - 1) 1 (score (player g))
      = Some ([], score (player g))"
    by (simp add: arenaSweep_loop.simps)
  with True assms(1) show ?thesis
    by (simp add: arenaSweep_def rows_cleared_def rows_kept_def)
next
  case False
  then have y: "length (arena g) - 1 < length (arena g)" by simp
  from False have t: "take (Suc (length (arena g) - 1)) (arena g) = arena g"
    and d: "drop (Suc (length (arena g) - 1)) (arena g) = []" by simp_all
  from arenaSweep_loop_result [OF assms(3) assms(2) y, of 1 "score (player g)"]
  have "arenaSweep_loop (arena g) (length (arena g) - 1) 1 (score (player g)) =
      Some (replicate (rows_cleared (arena g)) (replicate w 0) @ rows_kept (arena g),
            score (player g) + (\<Sum>i<rows_cleared (arena g). 10 * 2 ^ i))"
    unfolding t d by simp
  with assms(1) show ?thesis by (simp add: arenaSweep_def)
qed

lemma rows_kept_length: "length (rows_kept a) + rows_cleared a = length a"
  using length_filter_kept [of a] by (simp add: rows_kept_def rows_cleared_def)

text \<open>
  C3. In Normal mode, on an arena of positive width \<open>w\<close>, \<open>arenaSweep\<close> returns; when it
  clears \<open>n\<close> rows (the arena afterwards is \<open>n\<close> empty rows on top of the rows kept, which
  are all but \<open>n\<close> of the rows before) the score grows by exactly
  \<open>10 + 20 + ... + 10 * 2 ^ (n - 1)\<close>, that is \<open>10 * 2 ^ n - 10\<close>; when it clears no row the
  score is unchanged.
\<close>

theorem arenaSweep_score:
  assumes "mode g = Normal" and "rectangular w (arena g)" and "0 < w"
  shows "\<exists>g' n. arenaSweep g = Some g'
      \<and> n = rows_cleared (arena g)
      \<and> arena g' = replicate n (replicate w 0) @ rows_kept (arena g)
      \<and> length (rows_kept (arena g)) + n = length (arena g)
      \<and> score (player g') = score (player g) + (\<Sum>i<n. 10 * 2 ^ i)
      \<and> score (player g') + 10 = score (player g) + 10 * 2 ^ n
      \<and> (n = 0 \<longrightarrow> score (player g') = score (player g))"
proof -
  from assms(1) have m: "mode g \<noteq> Fill" by simp
  define n where "n = rows_cleared (arena g)"
  define pts :: nat where "pts = (\<Sum>i<n. 10 * 2 ^ i)"
  define g' where "g' = g\<lparr>arena := replicate n (replicate w 0) @ rows_kept (arena g),
      player := (player g)\<lparr>score := score (player g) + pts\<rparr>\<rparr>"
  have r: "arenaSweep g = Some g'"
    unfolding g'_def pts_def n_def by (rule arenaSweep_result [OF m assms(2) assms(3)])
  have a: "arena g' = replicate n (replicate w 0) @ rows_kept (arena g)"
    by (simp add: g'_def)
  have l: "length (rows_kept (arena g)) + n = length (arena g)"
    unfolding n_def by (rule rows_kept_length)
  have s: "score (player g') = score (player g) + pts"
    by (simp add: g'_def)
  have p: "pts + 10 = 10 * 2 ^ n"
    unfolding pts_def by (rule points_closed_form)
  have "score (player g') + 10 = score (player g) + (pts + 10)"
    by (simp only: s add.assoc)
  then have c: "score (player g') + 10 = score (player g) + 10 * 2 ^ n"
    by (simp only: p)
  have s': "score (player g') = score (player g) + (\<Sum>i<n. 10 * 2 ^ i)"
    using s by (simp only: pts_def)
  have z: "n = 0 \<longrightarrow> score (player g') = score (player g)"
  proof
    assume "n = 0"
    then have "pts = 0" by (simp add: pts_def)
    with s show "score (player g') = score (player g)" by simp
  qed
  show ?thesis
    by (intro exI [of _ g'] exI [of _ n] conjI) (rule r n_def a l s' c z)+
qed

text \<open>
  The 12 by 20 arena with its two bottom rows full, at score 50: two rows are cleared, for
  10 + 20 points.
\<close>

theorem arenaSweep_score_witness:
  "map_option (\<lambda>g'. score (player g'))
     (arenaSweep
        \<lparr>arena = createMatrix 12 18 @ [replicate 12 3, replicate 12 5],
         player = \<lparr>pos_x = 5, pos_y = 0, matrix = createPiece Piece_O, score = 50\<rparr>,
         gamePaused = False, mode = Normal, speedModifier = 1\<rparr>) = Some 80"
proof -
  let ?a = "createMatrix 12 18 @ [replicate 12 3, replicate 12 5]"
  let ?g = "\<lparr>arena = ?a,
         player = \<lparr>pos_x = 5, pos_y = 0, matrix = createPiece Piece_O, score = 50\<rparr>,
         gamePaused = False, mode = Normal, speedModifier = 1\<rparr>"
  have m: "mode ?g = Normal" by simp
  have "rectangular 12 ?a"
    using rectangular_createMatrix [of 12 18] by (simp add: rectangular_def)
  then have rect: "rectangular 12 (arena ?g)" by simp
  have "rows_cleared ?a = 2" by code_simp
  then have n: "rows_cleared (arena ?g) = 2" by simp
  from arenaSweep_score [OF m rect] obtain g' where
    "arenaSweep ?g = Some g'"
    "score (player g') = score (player ?g) + (\<Sum>i<rows_cleared (arena ?g). 10 * 2 ^ i)"
    by auto
  then show ?thesis
    unfolding n by (simp add: numeral_2_eq_2)
qed






text \<open>In Fill mode \<open>arenaSweep\<close> does nothing, whatever the arena.\<close>

theorem arenaSweep_Fill: "mode g = Fill \<longrightarrow> arenaSweep g = Some g"
  by (simp add: arenaSweep_def)

theorem arenaSweep_Fill_witness:
  "arenaSweep
     \<lparr>arena = createMatrix 12 19 @ [replicate 12 2],
      player = \<lparr>pos_x = 5, pos_y = 0, matrix = createPiece Piece_O, score = 0\<rparr>,
      gamePaused = False, mode = Fill, speedModifier = 1\<rparr>
   = Some
     \<lparr>arena = createMatrix 12 19 @ [replicate 12 2],
      player = \<lparr>pos_x = 5, pos_y = 0, matrix = createPiece Piece_O, score = 0\<rparr>,
      gamePaused = False, mode = Fill, speedModifier = 1\<rparr>"
  using arenaSweep_Fill [of
     "\<lparr>arena = createMatrix 12 19 @ [replicate 12 2],
      player = \<lparr>pos_x = 5, pos_y = 0, matrix = createPiece Piece_O, score = 0\<rparr>,
      gamePaused = False, mode = Fill, speedModifier = 1\<rparr>"]
  by simp

section \<open>playerRotate\<close>

text \<open>
  In \<open>well_state\<close> the piece does not collide. Turned either way it lies across the stack
  and collides at its own column and at each column the loop tries (one to the right, one
  to the left, two to the right) before \<open>offset\<close> exceeds the width 4 of the piece.
\<close>

lemma well_state_no_collision: "\<not> collide (arena well_state) (player well_state)"
  by code_simp

lemma well_state_turned_collides:
  "list_all (\<lambda>c. collide (arena well_state)
       \<lparr>pos_x = c, pos_y = 16,
        matrix = [[0, 0, 0, 0], [0, 0, 0, 0], [1, 1, 1, 1], [0, 0, 0, 0]], score = 0\<rparr>)
     [4, 5, 3, 6]
   \<and> list_all (\<lambda>c. collide (arena well_state)
       \<lparr>pos_x = c, pos_y = 16,
        matrix = [[0, 0, 0, 0], [1, 1, 1, 1], [0, 0, 0, 0], [0, 0, 0, 0]], score = 0\<rparr>)
     [4, 5, 3, 6]"
  by code_simp

text \<open>
  With \<open>dir = 1\<close> (the right shoulder button) the rotation is undone by
  \<open>rotate(player.matrix, -1)\<close> and the state is as before the call.
\<close>

lemma playerRotate_one_undone: "playerRotate 1 well_state = Inr well_state"
  by code_simp

text \<open>
  C6 fails on the code for \<open>dir = 0\<close>, the direction the left shoulder button sends
  (\<open>move("z", 0)\<close>): the undo is \<open>rotate(player.matrix, -dir)\<close>, and \<open>-0 > 0\<close> is false, so
  it turns the piece counter-clockwise a second time instead of turning it back. In
  \<open>well_state\<close> the call \<open>playerRotate(0)\<close> restores the column, but leaves the matrix turned
  by a half turn, and the piece now overlaps the stack.
\<close>

theorem playerRotate_zero_not_undone:
  "matrix (player well_state) = [[0, 1, 0, 0], [0, 1, 0, 0], [0, 1, 0, 0], [0, 1, 0, 0]]
   \<and> playerRotate 0 well_state =
       Inr (well_state\<lparr>player := (player well_state)
              \<lparr>matrix := [[0, 0, 1, 0], [0, 0, 1, 0], [0, 0, 1, 0], [0, 0, 1, 0]]\<rparr>\<rparr>)
   \<and> collide (arena well_state) ((player well_state)
         \<lparr>matrix := [[0, 0, 1, 0], [0, 0, 1, 0], [0, 0, 1, 0], [0, 0, 1, 0]]\<rparr>)"
  by code_simp

text \<open>
  For the matrices of play, a turn one way followed by a turn the other way gives the
  matrix back, and a turned matrix is again a matrix of play.
\<close>

lemma piece_matrices_turn_back:
  "list_all (\<lambda>m.
       (case rotate m 1 of Inl e \<Rightarrow> False
        | Inr m1 \<Rightarrow> rotate m1 0 = Inr m \<and> m1 \<in> set piece_matrices)
     \<and> (case rotate m 0 of Inl e \<Rightarrow> False
        | Inr m1 \<Rightarrow> rotate m1 1 = Inr m \<and> m1 \<in> set piece_matrices))
     piece_matrices"
  by code_simp

lemma rotate_then_back:
  assumes "m \<in> set piece_matrices" and "dir \<noteq> 0"
  shows "\<exists>m1. rotate m dir = Inr m1 \<and> rotate m1 (- dir) = Inr m \<and> m1 \<in> set piece_matrices"
proof -
  from piece_matrices_turn_back assms(1)
  have b: "(case rotate m 1 of Inl e \<Rightarrow> False
        | Inr m1 \<Rightarrow> rotate m1 0 = Inr m \<and> m1 \<in> set piece_matrices)
     \<and> (case rotate m 0 of Inl e \<Rightarrow> False
        | Inr m1 \<Rightarrow> rotate m1 1 = Inr m \<and> m1 \<in> set piece_matrices)"
    unfolding list_all_iff by blast
  show ?thesis
  proof (cases "0 < dir")
    case True
    then have "- dir \<le> 0" by simp
    then have undo: "rotate m1 (- dir) = rotate m1 0" for m1
      by (rule rotate_counter_clockwise)
    from b show ?thesis
      unfolding rotate_clockwise [OF True] undo
      by (auto split: sum.splits)
  next
    case False
    with assms(2) have neg: "dir \<le> 0" and pos: "0 < - dir" by simp_all
    have undo: "rotate m1 (- dir) = rotate m1 1" for m1
      using pos by (rule rotate_clockwise)
    from b show ?thesis
      unfolding rotate_counter_clockwise [OF neg] undo
      by (auto split: sum.splits)
  qed
qed

lemma collide_matrix_nonempty: "collide a p \<Longrightarrow> matrix p \<noteq> []"
  by (auto simp: collide_def)

text \<open>One pass of the loop of \<open>playerRotate\<close>, for a piece that collides.\<close>

lemma playerRotate_loop_step:
  assumes "collide a p" and "matrix p = row0 # rest"
  shows "playerRotate_loop a p offset dir pos =
     (if - (offset + (if offset > 0 then 1 else - 1)) > int (length row0)
      then (case rotate (matrix p) (- dir) of
              Inl e \<Rightarrow> Inl e
            | Inr m \<Rightarrow> Inr (p\<lparr>pos_x := pos_x p + offset\<rparr>\<lparr>matrix := m, pos_x := pos\<rparr>))
      else playerRotate_loop a (p\<lparr>pos_x := pos_x p + offset\<rparr>)
             (- (offset + (if offset > 0 then 1 else - 1))) dir pos)"
  using assms by (subst playerRotate_loop.simps) (simp add: Let_def)

text \<open>
  The loop of \<open>playerRotate\<close> returns, and in one of two ways: at a column where the piece
  does not collide, or with the undo applied and the column set back to \<open>pos\<close>.
\<close>

lemma playerRotate_loop_result:
  "rotate (matrix p) (- dir) = Inr m0 \<Longrightarrow>
     \<exists>p'. playerRotate_loop a p offset dir pos = Inr p'
       \<and> (p' = p\<lparr>matrix := m0, pos_x := pos\<rparr>
          \<or> (\<exists>c. p' = p\<lparr>pos_x := c\<rparr> \<and> \<not> collide a p'))"
proof (induction a p offset dir pos rule: playerRotate_loop.induct)
  case (1 a p offset dir pos)
  show ?case
  proof (cases "collide a p")
    case False
    then have "playerRotate_loop a p offset dir pos = Inr p"
      by (subst playerRotate_loop.simps) simp
    moreover have "p = p\<lparr>pos_x := pos_x p\<rparr>" by simp
    ultimately show ?thesis using False by metis
  next
    case True
    define p1 where "p1 = p\<lparr>pos_x := pos_x p + offset\<rparr>"
    define offset1 where "offset1 = - (offset + (if offset > 0 then 1 else - 1))"
    from True have "matrix p \<noteq> []" by (rule collide_matrix_nonempty)
    then obtain row0 rest where rows: "matrix p = row0 # rest"
      by (cases "matrix p") auto
    then have rows1: "matrix p1 = row0 # rest" by (simp add: p1_def)
    have step: "playerRotate_loop a p offset dir pos =
       (if offset1 > int (length row0)
        then (case rotate (matrix p) (- dir) of
                Inl e \<Rightarrow> Inl e
              | Inr m \<Rightarrow> Inr (p1\<lparr>matrix := m, pos_x := pos\<rparr>))
        else playerRotate_loop a p1 offset1 dir pos)"
      unfolding p1_def offset1_def by (rule playerRotate_loop_step [OF True rows])
    show ?thesis
    proof (cases "offset1 > int (length row0)")
      case bail: True
      have "p1\<lparr>matrix := m0, pos_x := pos\<rparr> = p\<lparr>matrix := m0, pos_x := pos\<rparr>"
        by (simp add: p1_def)
      with bail "1.prems" show ?thesis unfolding step by simp
    next
      case go: False
      from "1.prems" have "rotate (matrix p1) (- dir) = Inr m0" by (simp add: p1_def)
      from "1.IH" [OF True p1_def offset1_def rows1 go this]
      obtain p' where r: "playerRotate_loop a p1 offset1 dir pos = Inr p'"
        and alt: "p' = p1\<lparr>matrix := m0, pos_x := pos\<rparr>
          \<or> (\<exists>c. p' = p1\<lparr>pos_x := c\<rparr> \<and> \<not> collide a p')"
        by blast
      from alt have "p' = p\<lparr>matrix := m0, pos_x := pos\<rparr>
          \<or> (\<exists>c. p' = p\<lparr>pos_x := c\<rparr> \<and> \<not> collide a p')"
        by (auto simp: p1_def)
      with go r show ?thesis unfolding step by simp
    qed
  qed
qed

text \<open>
  For a direction other than 0 and a matrix of play, \<open>playerRotate\<close> returns without a
  fault, and either the state is exactly as before the call, or the piece is turned and
  stands at a column where it does not collide; nothing but the player's matrix and column
  changes.
\<close>

theorem playerRotate_nonzero_dir:
  assumes "matrix (player g) \<in> set piece_matrices" and "dir \<noteq> 0"
  shows "\<exists>g'. playerRotate dir g = Inr g'
      \<and> (g' = g
         \<or> (\<exists>m c. rotate (matrix (player g)) dir = Inr m
               \<and> g' = g\<lparr>player := (player g)\<lparr>matrix := m, pos_x := c\<rparr>\<rparr>
               \<and> \<not> collide (arena g') (player g')))"
proof (cases "gamePaused g = False \<or> mode g \<noteq> Normal")
  case False
  then have "playerRotate dir g = Inr g" by (simp add: playerRotate_def)
  then show ?thesis by simp
next
  case True
  from rotate_then_back [OF assms] obtain m1 where
    t: "rotate (matrix (player g)) dir = Inr m1"
    and u: "rotate m1 (- dir) = Inr (matrix (player g))" by blast
  define p where "p = (player g)\<lparr>matrix := m1\<rparr>"
  from u have "rotate (matrix p) (- dir) = Inr (matrix (player g))" by (simp add: p_def)
  from playerRotate_loop_result [OF this, of "arena g" 1 "pos_x (player g)"]
  obtain p' where l: "playerRotate_loop (arena g) p 1 dir (pos_x (player g)) = Inr p'"
    and alt: "p' = p\<lparr>matrix := matrix (player g), pos_x := pos_x (player g)\<rparr>
      \<or> (\<exists>c. p' = p\<lparr>pos_x := c\<rparr> \<and> \<not> collide (arena g) p')"
    by blast
  from True t l have r: "playerRotate dir g = Inr (g\<lparr>player := p'\<rparr>)"
    by (simp add: playerRotate_def p_def)
  from alt show ?thesis
  proof
    assume "p' = p\<lparr>matrix := matrix (player g), pos_x := pos_x (player g)\<rparr>"
    then have "p' = player g" by (simp add: p_def)
    then have "g\<lparr>player := p'\<rparr> = g" by simp
    with r show ?thesis by simp
  next
    assume "\<exists>c. p' = p\<lparr>pos_x := c\<rparr> \<and> \<not> collide (arena g) p'"
    then obtain c where c: "p' = p\<lparr>pos_x := c\<rparr>" and n: "\<not> collide (arena g) p'" by blast
    from c have "g\<lparr>player := p'\<rparr> = g\<lparr>player := (player g)\<lparr>matrix := m1, pos_x := c\<rparr>\<rparr>"
      by (simp add: p_def)
    moreover from n have "\<not> collide (arena (g\<lparr>player := p'\<rparr>)) (player (g\<lparr>player := p'\<rparr>))"
      by simp
    ultimately show ?thesis using r t by metis
  qed
qed

text \<open>
  In \<open>well_state\<close> with \<open>dir = - 1\<close> the turned piece collides wherever the loop puts it,
  and the state after the call is the state before.
\<close>

theorem playerRotate_nonzero_dir_witness:
  "playerRotate (- 1) well_state = Inr well_state"
proof -
  have m: "matrix (player well_state) \<in> set piece_matrices"
    by code_simp
  have d: "(- 1 :: int) \<noteq> 0" by simp
  have rect: "rectangular 12 (arena well_state)"
    by (auto simp: well_state_def rectangular_def list_all_iff createMatrix_def)
  have len: "length (arena well_state) = 20"
    by (simp add: well_state_def createMatrix_def)
  have row: "arena well_state ! 18 = [1, 1, 1, 1, 1, 0, 1, 1, 1, 1, 1, 1]"
    by (simp add: well_state_def createMatrix_def nth_append)
  have occupied: "arena_at (arena well_state) 18 c \<noteq> Some 0" if "c \<noteq> 5" for c
  proof (cases "in_bounds 12 (length (arena well_state)) 18 c")
    case True
    then have "0 \<le> c \<and> c < 12" by (simp add: in_bounds_def)
    with that have "c = 0 \<or> c = 1 \<or> c = 2 \<or> c = 3 \<or> c = 4 \<or> c = 6 \<or> c = 7
        \<or> c = 8 \<or> c = 9 \<or> c = 10 \<or> c = 11"
      by presburger
    then have "[1, 1, 1, 1, 1, 0, 1, 1, 1, 1, 1, 1 :: nat] ! nat c \<noteq> 0"
      by (elim disjE) simp_all
    with arena_at_in_bounds [OF rect True] show ?thesis by (simp add: row)
  next
    case False
    with arena_at_out_of_bounds [OF rect False] show ?thesis by simp
  qed
  have t: "\<forall>c. collide (arena well_state)
      ((player well_state)\<lparr>matrix := [[0, 0, 0, 0], [0, 0, 0, 0], [1, 1, 1, 1], [0, 0, 0, 0]],
         pos_x := c\<rparr>)"
  proof
    fix c :: int
    let ?p = "(player well_state)\<lparr>matrix := [[0, 0, 0, 0], [0, 0, 0, 0], [1, 1, 1, 1], [0, 0, 0, 0]],
         pos_x := c\<rparr>"
    have cells: "piece_cell ?p 2 0" "piece_cell ?p 2 1"
      by (simp_all add: piece_cell_def)
    have py: "pos_y ?p + int 2 = 18" by (simp add: well_state_def)
    have px: "pos_x ?p + int 0 = c" "pos_x ?p + int 1 = c + 1" by simp_all
    show "collide (arena well_state) ?p"
    proof (cases "c = 5")
      case True
      then have "arena_at (arena well_state) (pos_y ?p + int 2) (pos_x ?p + int 1) \<noteq> Some 0"
        unfolding py px by (intro occupied) simp
      with cells(2) show ?thesis unfolding collide_iff by blast
    next
      case False
      then have "arena_at (arena well_state) (pos_y ?p + int 2) (pos_x ?p + int 0) \<noteq> Some 0"
        unfolding py px by (rule occupied)
      with cells(1) show ?thesis unfolding collide_iff by blast
    qed
  qed
  have r: "rotate (matrix (player well_state)) (- 1)
      = Inr [[0, 0, 0, 0], [0, 0, 0, 0], [1, 1, 1, 1], [0, 0, 0, 0]]"
    by code_simp
  from playerRotate_nonzero_dir [OF m d] obtain g' where
    g': "playerRotate (- 1) well_state = Inr g'"
    and alt: "g' = well_state
         \<or> (\<exists>m c. rotate (matrix (player well_state)) (- 1) = Inr m
               \<and> g' = well_state\<lparr>player := (player well_state)\<lparr>matrix := m, pos_x := c\<rparr>\<rparr>
               \<and> \<not> collide (arena g') (player g'))"
    by blast
  from alt have "g' = well_state"
  proof
    assume "g' = well_state"
    then show ?thesis .
  next
    assume "\<exists>m c. rotate (matrix (player well_state)) (- 1) = Inr m
               \<and> g' = well_state\<lparr>player := (player well_state)\<lparr>matrix := m, pos_x := c\<rparr>\<rparr>
               \<and> \<not> collide (arena g') (player g')"
    then obtain m c where "rotate (matrix (player well_state)) (- 1) = Inr m"
      and e: "g' = well_state\<lparr>player := (player well_state)\<lparr>matrix := m, pos_x := c\<rparr>\<rparr>"
      and n: "\<not> collide (arena g') (player g')" by blast
    with r have "m = [[0, 0, 0, 0], [0, 0, 0, 0], [1, 1, 1, 1], [0, 0, 0, 0]]" by simp
    with e n t show ?thesis by simp
  qed
  with g' show ?thesis by simp
qed

end
